theory Spec2Isabelle
  imports Main "HOL-Library.Sublist"
begin

section \<open>Python strings\<close>

text \<open>
  A Python \<open>str\<close> is a sequence of Unicode code points, so it is modelled as a list of
  natural numbers (the code points), not as a list of bytes: \<open>str.isdigit\<close>,
  \<open>str.strip\<close> and the regular expressions of \<open>Series.str.contains\<close> all work on
  code points.
\<close>

type_synonym pystr = "nat list"

definition in_ranges :: "nat \<Rightarrow> (nat \<times> nat) list \<Rightarrow> bool" where
  "in_ranges c rs = list_ex (\<lambda>(lo, hi). lo \<le> c \<and> c \<le> hi) rs"

text \<open>
  The code points \<open>c\<close> with \<open>chr(c).isdigit()\<close>: Unicode Numeric_Type Digit or Decimal
  (Unicode 14.0, the database of CPython 3.11), as inclusive ranges.
\<close>

definition digit_ranges :: "(nat \<times> nat) list" where
  "digit_ranges =
    [(48, 57), (178, 179), (185, 185), (1632, 1641), (1776, 1785), (1984, 1993),
     (2406, 2415), (2534, 2543), (2662, 2671), (2790, 2799), (2918, 2927), (3046, 3055),
     (3174, 3183), (3302, 3311), (3430, 3439), (3558, 3567), (3664, 3673), (3792, 3801),
     (3872, 3881), (4160, 4169), (4240, 4249), (4969, 4977), (6112, 6121), (6160, 6169),
     (6470, 6479), (6608, 6618), (6784, 6793), (6800, 6809), (6992, 7001), (7088, 7097),
     (7232, 7241), (7248, 7257), (8304, 8304), (8308, 8313), (8320, 8329), (9312, 9320),
     (9332, 9340), (9352, 9360), (9450, 9450), (9461, 9469), (9471, 9471), (10102, 10110),
     (10112, 10120), (10122, 10130), (42528, 42537), (43216, 43225), (43264, 43273),
     (43472, 43481), (43504, 43513), (43600, 43609), (44016, 44025), (65296, 65305),
     (66720, 66729), (68160, 68163), (68912, 68921), (69216, 69224), (69714, 69722),
     (69734, 69743), (69872, 69881), (69942, 69951), (70096, 70105), (70384, 70393),
     (70736, 70745), (70864, 70873), (71248, 71257), (71360, 71369), (71472, 71481),
     (71904, 71913), (72016, 72025), (72784, 72793), (73040, 73049), (73120, 73129),
     (92768, 92777), (92864, 92873), (93008, 93017), (120782, 120831), (123200, 123209),
     (123632, 123641), (125264, 125273), (127232, 127242), (130032, 130041)]"

text \<open>The code points \<open>c\<close> with \<open>chr(c).isspace()\<close>; \<open>str.strip()\<close> removes exactly these.\<close>

definition space_ranges :: "(nat \<times> nat) list" where
  "space_ranges =
    [(9, 13), (28, 32), (133, 133), (160, 160), (5760, 5760), (8192, 8202), (8232, 8233),
     (8239, 8239), (8287, 8287), (12288, 12288)]"

definition chr_isdigit :: "nat \<Rightarrow> bool" where
  "chr_isdigit c = in_ranges c digit_ranges"

definition chr_isspace :: "nat \<Rightarrow> bool" where
  "chr_isspace c = in_ranges c space_ranges"

text \<open>\<open>s.isdigit()\<close>: at least one character, and every character a digit.\<close>

definition str_isdigit :: "pystr \<Rightarrow> bool" where
  "str_isdigit s = (s \<noteq> [] \<and> list_all chr_isdigit s)"

text \<open>\<open>s.strip()\<close>: leading and trailing whitespace removed.\<close>

definition str_strip :: "pystr \<Rightarrow> pystr" where
  "str_strip s = rev (dropWhile chr_isspace (rev (dropWhile chr_isspace s)))"

text \<open>The decimal digits \<open>0\<close> to \<open>9\<close> of ASCII.\<close>

definition ascii_digit :: "nat \<Rightarrow> bool" where
  "ascii_digit c = (48 \<le> c \<and> c \<le> 57)"

text \<open>An ASCII literal as a Python string, for writing concrete inputs.\<close>

definition ascii :: "string \<Rightarrow> pystr" where
  "ascii s = map of_char s"

subsection \<open>Directory.validate_phone\<close>

definition validate_phone :: "pystr \<Rightarrow> bool" where
  "validate_phone phone = str_isdigit phone"

text \<open>\<open>str(n)\<close> for an integer \<open>n\<close>: its decimal digits, with a minus sign when negative.\<close>

fun digits_of :: "nat \<Rightarrow> pystr" where
  "digits_of n = (if n < 10 then [48 + n] else digits_of (n div 10) @ [48 + n mod 10])"

declare digits_of.simps [simp del]

definition str_int :: "int \<Rightarrow> pystr" where
  "str_int n = (if n < 0 then 45 # digits_of (nat (- n)) else digits_of (nat n))"

section \<open>Python regular expressions, as far as the search needs them\<close>

text \<open>
  \<open>Series.str.contains(pat)\<close> is called with its default \<open>regex=True\<close>: each element
  \<open>s\<close> is tested with \<open>re.search(pat, s)\<close>. In a pattern the characters
  \<open>. ^ $ * + ? { } [ ] \ | ( )\<close> are special and every other character matches itself.
  The model covers the patterns built from ordinary characters and the dot (which
  matches any character except a newline). What \<open>re.search\<close> does with a pattern that
  uses another special character (including raising \<open>re.error\<close>) is the parameter
  \<open>re_rest\<close> of everything below.
\<close>

datatype exn = FileNotFoundError | EmptyDataError | ParserError | KeyError pystr | ReError

datatype atom = Lit nat | Dot

definition re_specials :: "nat list" where
  "re_specials = [46, 94, 36, 42, 43, 63, 123, 125, 91, 93, 92, 124, 40, 41]"

definition re_modelled :: "pystr \<Rightarrow> bool" where
  "re_modelled pat = list_all (\<lambda>c. c = 46 \<or> c \<notin> set re_specials) pat"

definition re_atoms :: "pystr \<Rightarrow> atom list" where
  "re_atoms pat = map (\<lambda>c. if c = 46 then Dot else Lit c) pat"

fun atom_matches :: "atom \<Rightarrow> nat \<Rightarrow> bool" where
  "atom_matches (Lit a) c = (a = c)"
| "atom_matches Dot c = (c \<noteq> 10)"

fun match_here :: "atom list \<Rightarrow> pystr \<Rightarrow> bool" where
  "match_here [] s = True"
| "match_here (a # as) [] = False"
| "match_here (a # as) (c # s) = (atom_matches a c \<and> match_here as s)"

fun search_atoms :: "atom list \<Rightarrow> pystr \<Rightarrow> bool" where
  "search_atoms as [] = match_here as []"
| "search_atoms as (c # s) = (match_here as (c # s) \<or> search_atoms as s)"

definition re_search :: "(pystr \<Rightarrow> pystr \<Rightarrow> exn + bool) \<Rightarrow> pystr \<Rightarrow> pystr \<Rightarrow> exn + bool" where
  "re_search re_rest pat s =
     (if re_modelled pat then Inr (search_atoms (re_atoms pat) s) else re_rest pat s)"

section \<open>Data frames\<close>

text \<open>
  A \<open>pandas.DataFrame\<close> as this program uses it: the column labels, and the rows in
  order under the default index \<open>0, 1, 2, ...\<close> (\<open>read_csv\<close> and
  \<open>concat(..., ignore_index=True)\<close> both produce it), so a row's label is its
  position. A cell holds an integer (the ID the program assigns, or a value of a column
  that \<open>read_csv\<close> read as integers), a string (what the user typed) or NaN (a
  missing value).
\<close>

datatype cell = IntCell int | StrCell pystr | NaN

record dataframe =
  columns :: "pystr list"
  rows :: "cell list list"

text \<open>\<open>len(df)\<close>\<close>

definition len :: "dataframe \<Rightarrow> nat" where
  "len df = length (rows df)"

text \<open>\<open>astype(str)\<close> on one value of a Series of objects.\<close>

fun cell_str :: "cell \<Rightarrow> pystr" where
  "cell_str (IntCell n) = str_int n"
| "cell_str (StrCell s) = s"
| "cell_str NaN = [110, 97, 110]"

fun first_index :: "('a \<Rightarrow> bool) \<Rightarrow> 'a list \<Rightarrow> nat option" where
  "first_index P [] = None"
| "first_index P (x # xs) = (if P x then Some 0 else map_option Suc (first_index P xs))"

definition index_of :: "'a \<Rightarrow> 'a list \<Rightarrow> nat option" where
  "index_of x xs = first_index (\<lambda>y. y = x) xs"

subsection \<open>The schema\<close>

definition col_ID :: pystr where
  "col_ID = [73, 68]"

definition col_surname :: pystr where
  "col_surname = [1060, 1072, 1084, 1080, 1083, 1080, 1103]"

definition col_name :: pystr where
  "col_name = [1048, 1084, 1103]"

definition col_patronymic :: pystr where
  "col_patronymic = [1054, 1090, 1095, 1077, 1089, 1090, 1074, 1086]"

definition col_organization :: pystr where
  "col_organization = [1054, 1088, 1075, 1072, 1085, 1080, 1079, 1072, 1094, 1080, 1103]"

definition col_work_phone :: pystr where
  "col_work_phone =
     [1056, 1072, 1073, 1086, 1095, 1080, 1081, 32, 1090, 1077, 1083, 1077, 1092, 1086, 1085]"

definition col_mobile_phone :: pystr where
  "col_mobile_phone =
     [1057, 1086, 1090, 1086, 1074, 1099, 1081, 32, 1090, 1077, 1083, 1077, 1092, 1086, 1085]"

definition schema :: "pystr list" where
  "schema = [col_ID, col_surname, col_name, col_patronymic, col_organization,
             col_work_phone, col_mobile_phone]"

section \<open>The pandas CSV calls\<close>

text \<open>
  The file \<open>records.csv\<close> either does not exist or holds a sequence of CSV records,
  each a list of text fields; a file of zero bytes holds no record. The quoting that
  turns fields into bytes and back is not modelled.

  \<open>DataFrame.to_csv(file, index=False)\<close> writes the column labels as the first record
  and then one record per row: an integer as its decimal digits, a string as it is, NaN
  as the empty field.

  \<open>pandas.read_csv(file)\<close> raises \<open>FileNotFoundError\<close> when the file does not exist
  and \<open>EmptyDataError\<close> when it holds no record. Otherwise the first record is the
  header. When the header's names are distinct and non-empty and every record has as
  many fields as the header, the names become the column labels and each column is typed
  as a whole: a column in which every field is a string of at most 18 ASCII digits
  becomes a column of integers. What a field becomes in any other column (a string, NaN,
  a number, a truth value) is the parameter \<open>pd_other\<close>, given the column's fields and
  the field; what \<open>read_csv\<close> does with any other table is the parameter \<open>pd_rest\<close>.
\<close>

type_synonym csv_table = "pystr list list"

datatype csv_file = NoFile | File csv_table

fun cell_text :: "cell \<Rightarrow> pystr" where
  "cell_text (IntCell n) = str_int n"
| "cell_text (StrCell s) = s"
| "cell_text NaN = []"

definition to_csv :: "dataframe \<Rightarrow> csv_table" where
  "to_csv df = columns df # map (map cell_text) (rows df)"

definition int_literal :: "pystr \<Rightarrow> bool" where
  "int_literal s = (s \<noteq> [] \<and> list_all ascii_digit s \<and> length s \<le> 18)"

definition int_of_digits :: "pystr \<Rightarrow> int" where
  "int_of_digits s = foldl (\<lambda>a c. 10 * a + (int c - 48)) 0 s"

definition infer_cell :: "(pystr list \<Rightarrow> pystr \<Rightarrow> cell) \<Rightarrow> pystr list \<Rightarrow> pystr \<Rightarrow> cell" where
  "infer_cell pd_other col field =
     (if list_all int_literal col then IntCell (int_of_digits field) else pd_other col field)"

definition plain_table :: "pystr list \<Rightarrow> pystr list list \<Rightarrow> bool" where
  "plain_table hdr recs =
     (distinct hdr \<and> list_all (\<lambda>name. name \<noteq> []) hdr \<and>
      list_all (\<lambda>r. length r = length hdr) recs)"

definition read_csv ::
  "(csv_table \<Rightarrow> exn + dataframe) \<Rightarrow> (pystr list \<Rightarrow> pystr \<Rightarrow> cell) \<Rightarrow> csv_file \<Rightarrow> exn + dataframe" where
  "read_csv pd_rest pd_other f =
     (case f of
        NoFile \<Rightarrow> Inl FileNotFoundError
      | File t \<Rightarrow>
          (case t of
             [] \<Rightarrow> Inl EmptyDataError
           | hdr # recs \<Rightarrow>
               if plain_table hdr recs
               then Inr \<lparr>columns = hdr,
                         rows = map (\<lambda>r. map (\<lambda>j. infer_cell pd_other (map (\<lambda>r'. r' ! j) recs) (r ! j))
                                              [0..<length hdr]) recs\<rparr>
               else pd_rest t))"

subsection \<open>CSVDataStorage\<close>

text \<open>
  \<open>load\<close> returns what \<open>read_csv\<close> returns, except that \<open>FileNotFoundError\<close> is
  caught and answered with the empty frame of the seven columns. \<open>save\<close> overwrites
  the file.
\<close>

definition CSVDataStorage_load ::
  "(csv_table \<Rightarrow> exn + dataframe) \<Rightarrow> (pystr list \<Rightarrow> pystr \<Rightarrow> cell) \<Rightarrow> csv_file \<Rightarrow> exn + dataframe" where
  "CSVDataStorage_load pd_rest pd_other f =
     (case read_csv pd_rest pd_other f of
        Inl e \<Rightarrow> if e = FileNotFoundError then Inr \<lparr>columns = schema, rows = []\<rparr> else Inl e
      | Inr df \<Rightarrow> Inr df)"

definition CSVDataStorage_save :: "dataframe \<Rightarrow> csv_file" where
  "CSVDataStorage_save df = File (to_csv df)"

section \<open>Directory\<close>

text \<open>
  The state of the singleton: the frame \<open>data\<close>, the counter \<open>next_id\<close>, and the
  effect of \<open>data_storage.save\<close>: \<open>saved\<close> lists the frames handed to it so far,
  oldest first (each call overwrites \<open>records.csv\<close> with that frame).
\<close>

record directory =
  data :: dataframe
  next_id :: int
  saved :: "dataframe list"

text \<open>What an operation prints last.\<close>

datatype message =
    AllFieldsRequired
  | PhonesInvalid
  | RecordAdded
  | RecordNotFound
  | FieldInvalid pystr
  | RecordUpdated

text \<open>\<open>Directory.__new__\<close>, on the first call.\<close>

definition Directory_new ::
  "(csv_table \<Rightarrow> exn + dataframe) \<Rightarrow> (pystr list \<Rightarrow> pystr \<Rightarrow> cell) \<Rightarrow> csv_file \<Rightarrow> exn + directory" where
  "Directory_new pd_rest pd_other f =
     (case CSVDataStorage_load pd_rest pd_other f of
        Inl e \<Rightarrow> Inl e
      | Inr df \<Rightarrow> Inr \<lparr>data = df, next_id = int (len df) + 1, saved = []\<rparr>)"

subsection \<open>add_record\<close>

text \<open>
  The argument \<open>record\<close> is a Python dict from column names to strings, given as an
  association list (with distinct keys). \<open>{"ID": self.next_id, **record}\<close> lets an
  entry of \<open>record\<close> take precedence over the ID entry, so the entries of \<open>record\<close>
  come first in the list that \<open>map_of\<close> searches. \<open>pd.DataFrame([d], columns=cols)\<close>
  makes one row, with NaN in a column that \<open>d\<close> has no key for.
\<close>

definition record_with_id :: "int \<Rightarrow> (pystr \<times> pystr) list \<Rightarrow> (pystr \<times> cell) list" where
  "record_with_id n record = map (\<lambda>(k, v). (k, StrCell v)) record @ [(col_ID, IntCell n)]"

definition DataFrame_row :: "pystr list \<Rightarrow> (pystr \<times> cell) list \<Rightarrow> cell list" where
  "DataFrame_row cols d = map (\<lambda>c. case map_of d c of Some x \<Rightarrow> x | None \<Rightarrow> NaN) cols"

definition concat_row :: "dataframe \<Rightarrow> cell list \<Rightarrow> dataframe" where
  "concat_row df r = \<lparr>columns = columns df, rows = rows df @ [r]\<rparr>"

definition add_record :: "directory \<Rightarrow> (pystr \<times> pystr) list \<Rightarrow> exn + (message \<times> directory)" where
  "add_record st record =
     (if list_ex (\<lambda>v. str_strip v = []) (map snd record) then Inr (AllFieldsRequired, st)
      else case map_of record col_work_phone of
        None \<Rightarrow> Inl (KeyError col_work_phone)
      | Some w \<Rightarrow>
          if \<not> validate_phone w then Inr (PhonesInvalid, st)
          else case map_of record col_mobile_phone of
            None \<Rightarrow> Inl (KeyError col_mobile_phone)
          | Some m \<Rightarrow>
              if \<not> validate_phone m then Inr (PhonesInvalid, st)
              else
                let new_row = DataFrame_row (columns (data st)) (record_with_id (next_id st) record);
                    data' = concat_row (data st) new_row
                in Inr (RecordAdded,
                        \<lparr>data = data', next_id = next_id st + 1, saved = saved st @ [data']\<rparr>))"

subsection \<open>search_records\<close>

text \<open>
  \<open>self.data.apply(f, axis=1)\<close> hands \<open>f\<close> each row as one Series of the dtype
  common to the frame's columns. When no cell of the frame is NaN every value keeps its
  own text under \<open>astype(str)\<close>: an integer its decimal digits, a string itself. With
  a NaN in the frame the common dtype can be a float dtype (when every column is
  numeric), which changes the text of the integers (\<open>1\<close> becomes \<open>1.0\<close>); what the
  search returns then is the parameter \<open>apply_rest\<close>.

  \<open>row.astype(str).str.contains(keyword).any()\<close> tests every cell of the row, the ID
  included, and raises what any of the tests raises. The Boolean mask then selects the
  rows, in their order, and keeps the columns.

  On a frame without rows \<open>apply\<close> calls \<open>f\<close> on no row: it answers with an empty
  Series of floats, and \<open>self.data[...]\<close> with that Series selects no column, so the
  result has neither rows nor columns. (An exception of the one probing call that
  \<open>apply\<close> makes is swallowed; what is returned for a keyword outside the modelled
  patterns is again \<open>apply_rest\<close>.)
\<close>

fun collect :: "('e + 'a) list \<Rightarrow> 'e + 'a list" where
  "collect [] = Inr []"
| "collect (x # xs) =
     (case x of
        Inl e \<Rightarrow> Inl e
      | Inr v \<Rightarrow> (case collect xs of Inl e \<Rightarrow> Inl e | Inr vs \<Rightarrow> Inr (v # vs)))"

definition row_contains :: "(pystr \<Rightarrow> pystr \<Rightarrow> exn + bool) \<Rightarrow> pystr \<Rightarrow> cell list \<Rightarrow> exn + bool" where
  "row_contains re_rest keyword row =
     (case collect (map (\<lambda>c. re_search re_rest keyword (cell_str c)) row) of
        Inl e \<Rightarrow> Inl e
      | Inr bs \<Rightarrow> Inr (list_ex (\<lambda>b. b) bs))"

definition has_nan :: "dataframe \<Rightarrow> bool" where
  "has_nan df = list_ex (list_ex (\<lambda>c. c = NaN)) (rows df)"

definition search_records ::
  "(pystr \<Rightarrow> pystr \<Rightarrow> exn + bool) \<Rightarrow> (dataframe \<Rightarrow> pystr \<Rightarrow> exn + dataframe) \<Rightarrow>
     directory \<Rightarrow> pystr \<Rightarrow> exn + dataframe" where
  "search_records re_rest apply_rest st keyword =
     (if rows (data st) = [] then
        (if re_modelled keyword then Inr \<lparr>columns = [], rows = []\<rparr>
         else apply_rest (data st) keyword)
      else if has_nan (data st) then apply_rest (data st) keyword
      else
        (case collect (map (row_contains re_rest keyword) (rows (data st))) of
           Inl e \<Rightarrow> Inl e
         | Inr keep \<Rightarrow>
             Inr \<lparr>columns = columns (data st),
                  rows = map fst (filter snd (zip (rows (data st)) keep))\<rparr>))"

subsection \<open>edit_record\<close>

text \<open>\<open>self.data["ID"] == record_id\<close> on one cell: only an integer equals an integer.\<close>

fun cell_eq_int :: "cell \<Rightarrow> int \<Rightarrow> bool" where
  "cell_eq_int (IntCell m) n = (m = n)"
| "cell_eq_int (StrCell s) n = False"
| "cell_eq_int NaN n = False"

text \<open>
  \<open>self.data.at[index, key] = value\<close>. The keys are drawn from \<open>self.data.columns\<close>,
  so the column exists. The value is a string; written into a column that \<open>read_csv\<close>
  read as integers it replaces the integer of that cell (pandas 2 turns the column into
  one of objects).
\<close>

definition at_set :: "dataframe \<Rightarrow> nat \<Rightarrow> pystr \<Rightarrow> pystr \<Rightarrow> dataframe" where
  "at_set df i key v =
     (case index_of key (columns df) of
        None \<Rightarrow> df
      | Some j \<Rightarrow> df\<lparr>rows := (rows df)[i := (rows df ! i)[j := StrCell v]]\<rparr>)"

text \<open>
  The loop over \<open>record.items()\<close>. It works on \<open>self.data\<close> in place, so the frame
  it has reached is returned also when it stops at an invalid phone number (then with
  the key it stopped at).
\<close>

fun edit_loop :: "dataframe \<Rightarrow> nat \<Rightarrow> (pystr \<times> pystr) list \<Rightarrow> pystr option \<times> dataframe" where
  "edit_loop df i [] = (None, df)"
| "edit_loop df i ((key, v) # items) =
     (if v \<noteq> [] then
        (if key \<in> set [col_work_phone, col_mobile_phone] \<and> \<not> validate_phone v
         then (Some key, df)
         else edit_loop (at_set df i key v) i items)
      else edit_loop df i items)"

text \<open>\<open>df[name]\<close>: the cells of a column, or \<open>KeyError\<close> when there is no such column.\<close>

definition get_column :: "dataframe \<Rightarrow> pystr \<Rightarrow> exn + cell list" where
  "get_column df name =
     (case index_of name (columns df) of
        None \<Rightarrow> Inl (KeyError name)
      | Some j \<Rightarrow> Inr (map (\<lambda>r. r ! j) (rows df)))"

text \<open>
  The argument \<open>inp\<close> is what the user types at the prompt for each column. The row is
  the first one whose ID equals \<open>record_id\<close>.
\<close>

definition edit_record :: "directory \<Rightarrow> int \<Rightarrow> (pystr \<Rightarrow> pystr) \<Rightarrow> exn + (message \<times> directory)" where
  "edit_record st record_id inp =
     (case get_column (data st) col_ID of
        Inl e \<Rightarrow> Inl e
      | Inr ids \<Rightarrow>
          (case first_index (\<lambda>c. cell_eq_int c record_id) ids of
             None \<Rightarrow> Inr (RecordNotFound, st)
           | Some i \<Rightarrow>
               let record = map (\<lambda>col. (col, inp col))
                              (filter (\<lambda>col. col \<noteq> col_ID) (columns (data st)))
               in (case edit_loop (data st) i record of
                     (Some key, df) \<Rightarrow> Inr (FieldInvalid key, st\<lparr>data := df\<rparr>)
                   | (None, df) \<Rightarrow>
                       Inr (RecordUpdated, st\<lparr>data := df, saved := saved st @ [df]\<rparr>))))"

text \<open>
  For stating what an edit has done: the row after the answers for the columns in \<open>S\<close>
  have been applied to it, an empty answer keeping the value.
\<close>

definition with_answers :: "(pystr \<Rightarrow> pystr) \<Rightarrow> pystr set \<Rightarrow> pystr list \<Rightarrow> cell list \<Rightarrow> cell list" where
  "with_answers inp S cols row =
     map (\<lambda>(c, x). if c \<in> S \<and> inp c \<noteq> [] then StrCell (inp c) else x) (zip cols row)"

subsection \<open>Sequences of calls\<close>

text \<open>
  The collection is changed only by \<open>add_record\<close> and \<open>edit_record\<close>. A run is a
  sequence of such calls on the singleton; an exception ends it. The run returns the
  messages of the calls, in order, and the final state.
\<close>

datatype operation = AddRecord "(pystr \<times> pystr) list" | EditRecord int "pystr \<Rightarrow> pystr"

fun apply_operation :: "directory \<Rightarrow> operation \<Rightarrow> exn + (message \<times> directory)" where
  "apply_operation st (AddRecord record) = add_record st record"
| "apply_operation st (EditRecord record_id inp) = edit_record st record_id inp"

fun run_operations :: "directory \<Rightarrow> operation list \<Rightarrow> exn + (message list \<times> directory)" where
  "run_operations st [] = Inr ([], st)"
| "run_operations st (op # ops) =
     (case apply_operation st op of
        Inl e \<Rightarrow> Inl e
      | Inr (msg, st') \<Rightarrow>
          (case run_operations st' ops of
             Inl e \<Rightarrow> Inl e
           | Inr (msgs, st'') \<Rightarrow> Inr (msg # msgs, st'')))"

section \<open>Concrete inputs\<close>

text \<open>
  For evaluating the operations at concrete inputs the parameters are fixed to simple
  functions; every theorem below holds for all choices of the parameters.
\<close>

definition pd_error_rest :: "csv_table \<Rightarrow> exn + dataframe" where
  "pd_error_rest t = Inl ParserError"

definition pd_str_other :: "pystr list \<Rightarrow> pystr \<Rightarrow> cell" where
  "pd_str_other col field = StrCell field"

definition ivanov :: "(pystr \<times> pystr) list" where
  "ivanov =
     [(col_surname, ascii ''Ivanov''), (col_name, ascii ''Ivan''),
      (col_patronymic, ascii ''Ivanovich''), (col_organization, ascii ''Acme''),
      (col_work_phone, ascii ''1234567''), (col_mobile_phone, ascii ''7654321'')]"

definition person :: "string \<Rightarrow> string \<Rightarrow> string \<Rightarrow> (pystr \<times> pystr) list" where
  "person surname work mobile =
     [(col_surname, ascii surname), (col_name, ascii ''Ivan''),
      (col_patronymic, ascii ''Ivanovich''), (col_organization, ascii ''Acme''),
      (col_work_phone, ascii work), (col_mobile_phone, ascii mobile)]"

definition superscript_record :: "(pystr \<times> pystr) list" where
  "superscript_record =
     [(col_surname, ascii ''Ivanov''), (col_name, ascii ''Ivan''),
      (col_patronymic, ascii ''Ivanovich''), (col_organization, ascii ''Acme''),
      (col_work_phone, [178]), (col_mobile_phone, ascii ''7654321'')]"

definition ivanov_row :: "int \<Rightarrow> cell list" where
  "ivanov_row n =
     [IntCell n, StrCell (ascii ''Ivanov''), StrCell (ascii ''Ivan''),
      StrCell (ascii ''Ivanovich''), StrCell (ascii ''Acme''),
      StrCell (ascii ''1234567''), StrCell (ascii ''7654321'')]"

definition petrov_row :: "int \<Rightarrow> cell list" where
  "petrov_row n =
     [IntCell n, StrCell (ascii ''Petrov''), StrCell (ascii ''Petr''),
      StrCell (ascii ''Petrovich''), StrCell (ascii ''Globex''),
      StrCell (ascii ''5550100''), StrCell (ascii ''5550199'')]"

definition bond_row :: "cell list" where
  "bond_row =
     [IntCell 1, StrCell (ascii ''Bond''), StrCell (ascii ''James''),
      StrCell (ascii ''Herbert''), StrCell (ascii ''Universal''),
      StrCell (ascii ''007''), StrCell (ascii ''7654321'')]"

definition bond :: "(pystr \<times> pystr) list" where
  "bond =
     [(col_surname, ascii ''Bond''), (col_name, ascii ''James''),
      (col_patronymic, ascii ''Herbert''), (col_organization, ascii ''Universal''),
      (col_work_phone, ascii ''007''), (col_mobile_phone, ascii ''7654321'')]"

definition empty_store :: directory where
  "empty_store = \<lparr>data = \<lparr>columns = schema, rows = []\<rparr>, next_id = 1, saved = []\<rparr>"

definition store_one :: directory where
  "store_one =
     \<lparr>data = \<lparr>columns = schema, rows = [ivanov_row 1]\<rparr>, next_id = 2,
      saved = [\<lparr>columns = schema, rows = [ivanov_row 1]\<rparr>]\<rparr>"

definition store_two :: directory where
  "store_two =
     \<lparr>data = \<lparr>columns = schema, rows = [ivanov_row 1, petrov_row 2]\<rparr>, next_id = 3,
      saved = []\<rparr>"

definition store_dup :: directory where
  "store_dup =
     \<lparr>data = \<lparr>columns = schema, rows = [ivanov_row 1, petrov_row 1]\<rparr>, next_id = 3,
      saved = []\<rparr>"

definition only_column :: "pystr \<Rightarrow> pystr \<Rightarrow> pystr \<Rightarrow> pystr" where
  "only_column name v col = (if col = name then v else [])"

definition sidorov_answers :: "pystr \<Rightarrow> pystr" where
  "sidorov_answers col =
     (if col = col_surname then ascii ''Sidorov''
      else if col = col_work_phone then ascii ''111''
      else if col = col_mobile_phone then ascii ''abc''
      else [])"

definition example_run :: "operation list" where
  "example_run =
     [AddRecord ivanov, AddRecord (person '' '' ''12a'' ''7654321''),
      EditRecord 1 (only_column col_mobile_phone (ascii ''000'')), AddRecord ivanov]"

definition after_run :: directory where
  "after_run =
     \<lparr>data = \<lparr>columns = schema,
               rows = [(ivanov_row 1)[6 := StrCell (ascii ''000'')], ivanov_row 2]\<rparr>,
      next_id = 3,
      saved = [\<lparr>columns = schema, rows = [ivanov_row 1]\<rparr>,
               \<lparr>columns = schema, rows = [(ivanov_row 1)[6 := StrCell (ascii ''000'')]]\<rparr>,
               \<lparr>columns = schema,
                 rows = [(ivanov_row 1)[6 := StrCell (ascii ''000'')], ivanov_row 2]\<rparr>]\<rparr>"

definition loaded_two :: directory where
  "loaded_two =
     \<lparr>data = \<lparr>columns = schema,
               rows = [[IntCell 1, StrCell (ascii ''Ivanov''), StrCell (ascii ''Ivan''),
                        StrCell (ascii ''Ivanovich''), StrCell (ascii ''Acme''),
                        IntCell 1234567, IntCell 7654321],
                       [IntCell 2, StrCell (ascii ''Petrov''), StrCell (ascii ''Petr''),
                        StrCell (ascii ''Petrovich''), StrCell (ascii ''Globex''),
                        IntCell 5550100, IntCell 5550199]]\<rparr>,
      next_id = 3, saved = []\<rparr>"

section \<open>Phone validation\<close>

lemma chr_isdigit_ascii: "c < 128 \<Longrightarrow> chr_isdigit c = ascii_digit c"
  unfolding chr_isdigit_def in_ranges_def digit_ranges_def ascii_digit_def
  by auto

text \<open>
  C3 (as amended). For every string \<open>p\<close> of ASCII characters, the phone validation
  predicate accepts \<open>p\<close> if and only if \<open>p\<close> is non-empty and consists solely of the
  decimal digits \<open>0\<close> to \<open>9\<close> (so no separator, space or leading \<open>+\<close>). Outside ASCII
  the predicate is Python's \<open>isdigit\<close>, which also accepts other Unicode digits.
\<close>

theorem validate_phone_ascii:
  "list_all (\<lambda>c. c < 128) p \<Longrightarrow>
     validate_phone p \<longleftrightarrow> p \<noteq> [] \<and> list_all ascii_digit p"
  unfolding validate_phone_def str_isdigit_def
  by (induction p) (auto simp: chr_isdigit_ascii)

theorem validate_phone_ascii_witness:
  "list_all (\<lambda>c. c < 128) (ascii ''1234567'') \<and> validate_phone (ascii ''1234567'')
   \<and> list_all (\<lambda>c. c < 128) (ascii ''+7 495'') \<and> \<not> validate_phone (ascii ''+7 495'')"
  using validate_phone_ascii [of "ascii ''1234567''"] validate_phone_ascii [of "ascii ''+7 495''"]
  by (simp add: ascii_def ascii_digit_def)

text \<open>
  C3 (as stated) fails: the one-character string \<open>\<^sup>2\<close> (SUPERSCRIPT TWO, U+00B2) is
  accepted, although it is not a decimal digit.
\<close>

theorem validate_phone_superscript_counterexample:
  "validate_phone [178] \<and> \<not> ([178] \<noteq> [] \<and> list_all ascii_digit [178])"
  by (simp add: validate_phone_def str_isdigit_def chr_isdigit_def in_ranges_def
      digit_ranges_def ascii_digit_def)

section \<open>Search\<close>

lemma digits_of_small: "n < 10 \<Longrightarrow> digits_of n = [48 + n]"
  by (simp add: digits_of.simps)

lemma match_here_Lit: "match_here (map Lit k) s \<longleftrightarrow> prefix k s"
proof (induction k arbitrary: s)
  case Nil
  then show ?case by simp
next
  case (Cons a k)
  then show ?case by (cases s) auto
qed

lemma search_atoms_Lit: "search_atoms (map Lit k) s \<longleftrightarrow> sublist k s"
proof (induction s)
  case Nil
  then show ?case by (simp add: match_here_Lit)
next
  case (Cons c s)
  then show ?case by (simp add: match_here_Lit sublist_Cons_right)
qed

lemma re_atoms_plain: "list_all (\<lambda>c. c \<notin> set re_specials) k \<Longrightarrow> re_atoms k = map Lit k"
  by (induction k) (auto simp: re_atoms_def re_specials_def)

lemma re_modelled_plain: "list_all (\<lambda>c. c \<notin> set re_specials) k \<Longrightarrow> re_modelled k"
  by (induction k) (auto simp: re_modelled_def)

lemma re_search_plain:
  "list_all (\<lambda>c. c \<notin> set re_specials) k \<Longrightarrow> re_search re_rest k s = Inr (sublist k s)"
  by (simp add: re_search_def re_modelled_plain re_atoms_plain search_atoms_Lit)

lemma collect_Inr: "collect (map (\<lambda>x. Inr (g x)) xs) = Inr (map g xs)"
  by (induction xs) auto

lemma row_contains_plain:
  "list_all (\<lambda>c. c \<notin> set re_specials) k \<Longrightarrow>
     row_contains re_rest k row = Inr (\<exists>c\<in>set row. sublist k (cell_str c))"
  by (simp add: row_contains_def re_search_plain collect_Inr list_ex_iff)

lemma filter_by_zip: "map fst (filter snd (zip xs (map P xs))) = filter P xs"
  by (induction xs) auto

lemma search_records_plain:
  assumes "list_all (\<lambda>c. c \<notin> set re_specials) k"
    and "rows (data st) \<noteq> []" and "\<not> has_nan (data st)"
  shows "search_records re_rest apply_rest st k =
       Inr \<lparr>columns = columns (data st),
            rows = filter (\<lambda>r. \<exists>c\<in>set r. sublist k (cell_str c)) (rows (data st))\<rparr>"
proof -
  let ?P = "\<lambda>r. \<exists>c\<in>set r. sublist k (cell_str c)"
  have eq: "map (row_contains re_rest k) (rows (data st)) = map (\<lambda>r. Inr (?P r)) (rows (data st))"
    using assms(1) by (simp add: row_contains_plain)
  have "collect (map (row_contains re_rest k) (rows (data st))) = Inr (map ?P (rows (data st)))"
    unfolding eq by (rule collect_Inr)
  then show ?thesis
    using assms(2,3) by (simp add: search_records_def filter_by_zip)
qed

text \<open>
  C2 does not hold of the code. \<open>Series.str.contains\<close> compiles the keyword as a
  regular expression (its default \<open>regex=True\<close>), so the search is not a search for
  a literal substring: for the keyword \<open>.\<close> both records of \<open>store_two\<close> are
  returned, although no field of either contains a dot. (For a keyword without a special
  character the search is the literal one, \<open>search_records_plain\<close>.)
\<close>

theorem search_records_dot_matches_all:
  "search_records re_rest apply_rest store_two [46] = Inr (data store_two)
   \<and> filter (\<lambda>r. list_ex (\<lambda>c. sublist [46] (cell_str c)) r) (rows (data store_two)) = []"
  by (simp add: search_records_def has_nan_def store_two_def row_contains_def re_search_def
      re_modelled_def re_specials_def re_atoms_def ivanov_row_def petrov_row_def ascii_def
      str_int_def digits_of_small sublist_Cons_right)

section \<open>Persistence\<close>

lemma distinct_schema: "distinct schema"
  by (simp add: schema_def col_ID_def col_surname_def col_name_def col_patronymic_def
      col_organization_def col_work_phone_def col_mobile_phone_def)

lemma schema_names_nonempty: "list_all (\<lambda>name. name \<noteq> []) schema"
  by (simp add: schema_def col_ID_def col_surname_def col_name_def col_patronymic_def
      col_organization_def col_work_phone_def col_mobile_phone_def)

lemma length_schema: "length schema = 7"
  by (simp add: schema_def)

text \<open>
  C8 (as amended). When the underlying storage does not exist, or holds only the header
  of the seven column names and no record, \<open>load\<close> returns an empty collection with the
  seven fixed column names rather than failing.
\<close>

theorem load_missing_or_header_only:
  "CSVDataStorage_load pd_rest pd_other NoFile = Inr \<lparr>columns = schema, rows = []\<rparr>
   \<and> CSVDataStorage_load pd_rest pd_other (File [schema]) = Inr \<lparr>columns = schema, rows = []\<rparr>"
  by (simp add: CSVDataStorage_load_def read_csv_def plain_table_def distinct_schema
      schema_names_nonempty)

text \<open>
  C8 (as stated) fails for storage that exists and is empty: on a file without any
  content \<open>read_csv\<close> raises \<open>EmptyDataError\<close>, which \<open>load\<close> does not catch.
\<close>

theorem load_empty_file_counterexample:
  "CSVDataStorage_load pd_error_rest pd_str_other (File []) = Inl EmptyDataError"
  by (simp add: CSVDataStorage_load_def read_csv_def)

section \<open>Editing\<close>

lemma first_index_None: "first_index P xs = None \<longleftrightarrow> \<not> list_ex P xs"
  by (induction xs) auto

lemma first_index_Some:
  "first_index P xs = Some i \<longleftrightarrow> i < length xs \<and> P (xs ! i) \<and> (\<forall>k<i. \<not> P (xs ! k))"
proof (induction xs arbitrary: i)
  case Nil
  then show ?case by simp
next
  case (Cons x xs)
  show ?case
  proof (cases "P x")
    case True
    then show ?thesis by (cases i) auto
  next
    case False
    then show ?thesis
      using Cons.IH by (cases i) (auto simp: less_Suc_eq_0_disj)
  qed
qed

lemma index_of_Some: "index_of x xs = Some j \<Longrightarrow> j < length xs \<and> xs ! j = x"
  by (simp add: index_of_def first_index_Some)

lemma index_of_None: "index_of x xs = None \<longleftrightarrow> x \<notin> set xs"
  by (simp add: index_of_def first_index_None list_ex_iff)

lemma cell_eq_int_iff: "cell_eq_int c n \<longleftrightarrow> c = IntCell n"
  by (cases c) auto

lemma edit_loop_all_empty: "edit_loop df i (map (\<lambda>col. (col, [])) cs) = (None, df)"
  by (induction cs) auto

text \<open>
  C7. For every id present in the collection, \<open>edit_record\<close> with answers that are
  empty for every column other than the ID leaves the whole collection unchanged, and
  still hands the unchanged collection to \<open>save\<close>.
\<close>

theorem edit_record_all_empty:
  assumes "get_column (data st) col_ID = Inr ids"
    and "IntCell record_id \<in> set ids"
    and "\<forall>col. col \<noteq> col_ID \<longrightarrow> inp col = []"
  shows "edit_record st record_id inp = Inr (RecordUpdated, st\<lparr>saved := saved st @ [data st]\<rparr>)"
proof -
  have "list_ex (\<lambda>c. cell_eq_int c record_id) ids"
    using assms(2) by (auto simp: list_ex_iff cell_eq_int_iff)
  then obtain i where i: "first_index (\<lambda>c. cell_eq_int c record_id) ids = Some i"
    by (cases "first_index (\<lambda>c. cell_eq_int c record_id) ids") (auto simp: first_index_None)
  have "map (\<lambda>col. (col, inp col)) (filter (\<lambda>col. col \<noteq> col_ID) (columns (data st)))
      = map (\<lambda>col. (col, [])) (filter (\<lambda>col. col \<noteq> col_ID) (columns (data st)))"
    using assms(3) by simp
  then have "edit_loop (data st) i
      (map (\<lambda>col. (col, inp col)) (filter (\<lambda>col. col \<noteq> col_ID) (columns (data st)))) = (None, data st)"
    by (simp only: edit_loop_all_empty)
  then show ?thesis
    using assms(1) i by (simp add: edit_record_def)
qed

theorem edit_record_all_empty_witness:
  "get_column (data store_one) col_ID = Inr [IntCell 1]
   \<and> edit_record store_one 1 (\<lambda>col. [])
       = Inr (RecordUpdated, store_one\<lparr>saved := saved store_one @ [data store_one]\<rparr>)"
proof -
  have ids: "get_column (data store_one) col_ID = Inr [IntCell 1]"
    by (simp add: get_column_def store_one_def index_of_def schema_def ivanov_row_def)
  show ?thesis
    using ids edit_record_all_empty [OF ids, of 1 "\<lambda>col. []"] by simp
qed

lemma edit_loop_shape:
  "edit_loop df i items = (k, df') \<Longrightarrow>
     columns df' = columns df \<and> (\<exists>r'. rows df' = (rows df)[i := r'])"
proof (induction items arbitrary: df)
  case Nil
  then have "df' = df" by simp
  moreover have "rows df = (rows df)[i := rows df ! i]" by simp
  ultimately show ?case by blast
next
  case (Cons item items)
  obtain key v where item: "item = (key, v)" by (cases item)
  show ?case
  proof (cases "v \<noteq> [] \<and> \<not> (key \<in> set [col_work_phone, col_mobile_phone] \<and> \<not> validate_phone v)")
    case True
    then have "edit_loop (at_set df i key v) i items = (k, df')"
      using Cons.prems item by (auto split: if_splits)
    from Cons.IH [OF this] obtain r' where
      c: "columns df' = columns (at_set df i key v)" and
      r: "rows df' = (rows (at_set df i key v))[i := r']" by blast
    have "columns (at_set df i key v) = columns df"
      by (simp add: at_set_def split: option.splits)
    moreover have "\<exists>r''. (rows (at_set df i key v))[i := r'] = (rows df)[i := r'']"
      by (auto simp: at_set_def split: option.splits)
    ultimately show ?thesis using c r by auto
  next
    case False
    show ?thesis
    proof (cases "v = []")
      case True
      then have "edit_loop df i items = (k, df')" using Cons.prems item by simp
      from Cons.IH [OF this] show ?thesis .
    next
      case nonempty: False
      with False have "df' = df" using Cons.prems item by auto
      moreover have "rows df = (rows df)[i := rows df ! i]" by simp
      ultimately show ?thesis by blast
    qed
  qed
qed

text \<open>
  C10. If no record has the given id, \<open>edit_record\<close> reports that the record was not
  found and changes nothing (no call of \<open>save\<close>). Otherwise only the first record with
  that id, in the collection's order, can change: every other record, also a later one
  with the same id, is left as it was.
\<close>

theorem edit_record_first_match_only:
  assumes "get_column (data st) col_ID = Inr ids"
  shows "(IntCell record_id \<notin> set ids \<longrightarrow>
            edit_record st record_id inp = Inr (RecordNotFound, st))
       \<and> (\<forall>i. i < length ids \<and> ids ! i = IntCell record_id
                \<and> (\<forall>k<i. ids ! k \<noteq> IntCell record_id) \<longrightarrow>
            (\<exists>msg st' r'. edit_record st record_id inp = Inr (msg, st')
                \<and> msg \<noteq> RecordNotFound
                \<and> columns (data st') = columns (data st)
                \<and> rows (data st') = (rows (data st))[i := r']
                \<and> next_id st' = next_id st))"
proof (intro conjI impI allI)
  assume "IntCell record_id \<notin> set ids"
  then have "first_index (\<lambda>c. cell_eq_int c record_id) ids = None"
    by (simp add: first_index_None list_ex_iff cell_eq_int_iff)
  then show "edit_record st record_id inp = Inr (RecordNotFound, st)"
    using assms by (simp add: edit_record_def)
next
  fix i
  assume "i < length ids \<and> ids ! i = IntCell record_id \<and> (\<forall>k<i. ids ! k \<noteq> IntCell record_id)"
  then have i: "first_index (\<lambda>c. cell_eq_int c record_id) ids = Some i"
    by (simp add: first_index_Some cell_eq_int_iff)
  let ?items = "map (\<lambda>col. (col, inp col)) (filter (\<lambda>col. col \<noteq> col_ID) (columns (data st)))"
  obtain k df' where loop: "edit_loop (data st) i ?items = (k, df')"
    by (cases "edit_loop (data st) i ?items")
  from edit_loop_shape [OF loop] obtain r' where
    shape: "columns df' = columns (data st)" "rows df' = (rows (data st))[i := r']" by blast
  show "\<exists>msg st' r'. edit_record st record_id inp = Inr (msg, st')
          \<and> msg \<noteq> RecordNotFound
          \<and> columns (data st') = columns (data st)
          \<and> rows (data st') = (rows (data st))[i := r']
          \<and> next_id st' = next_id st"
    using assms i loop shape by (cases k) (auto simp: edit_record_def)
qed

theorem edit_record_first_match_only_witness:
  "get_column (data store_dup) col_ID = Inr [IntCell 1, IntCell 1]
   \<and> edit_record store_dup 5 (only_column col_mobile_phone (ascii ''000''))
       = Inr (RecordNotFound, store_dup)
   \<and> edit_record store_dup 1 (only_column col_mobile_phone (ascii ''000''))
       = Inr (RecordUpdated,
              \<lparr>data = \<lparr>columns = schema,
                        rows = [(ivanov_row 1)[6 := StrCell (ascii ''000'')], petrov_row 1]\<rparr>,
               next_id = 3,
               saved = [\<lparr>columns = schema,
                         rows = [(ivanov_row 1)[6 := StrCell (ascii ''000'')], petrov_row 1]\<rparr>]\<rparr>)"
proof -
  have ids: "get_column (data store_dup) col_ID = Inr [IntCell 1, IntCell 1]"
    by (simp add: get_column_def store_dup_def index_of_def schema_def ivanov_row_def
        petrov_row_def)
  have nf: "edit_record store_dup 5 (only_column col_mobile_phone (ascii ''000''))
       = Inr (RecordNotFound, store_dup)"
    using edit_record_first_match_only [OF ids, of 5 "only_column col_mobile_phone (ascii ''000'')"]
    by simp
  have "edit_record store_dup 1 (only_column col_mobile_phone (ascii ''000''))
       = Inr (RecordUpdated,
              \<lparr>data = \<lparr>columns = schema,
                        rows = [(ivanov_row 1)[6 := StrCell (ascii ''000'')], petrov_row 1]\<rparr>,
               next_id = 3,
               saved = [\<lparr>columns = schema,
                         rows = [(ivanov_row 1)[6 := StrCell (ascii ''000'')], petrov_row 1]\<rparr>]\<rparr>)"
    by (simp add: edit_record_def get_column_def store_dup_def only_column_def schema_def at_set_def
        index_of_def col_ID_def col_surname_def col_name_def col_patronymic_def
        col_organization_def col_work_phone_def col_mobile_phone_def validate_phone_def
        str_isdigit_def chr_isdigit_def in_ranges_def digit_ranges_def ascii_def
        ivanov_row_def petrov_row_def)
  with ids nf show ?thesis by simp
qed

lemma columns_at_set: "columns (at_set df i key v) = columns df"
  by (simp add: at_set_def split: option.splits)

lemma rows_at_set:
  "index_of key (columns df) = Some j \<Longrightarrow>
     rows (at_set df i key v) = (rows df)[i := (rows df ! i)[j := StrCell v]]"
  by (simp add: at_set_def)

lemma length_with_answers: "length (with_answers inp S cols row) = min (length cols) (length row)"
  by (simp add: with_answers_def)

lemma nth_with_answers:
  "p < length cols \<Longrightarrow> p < length row \<Longrightarrow>
     with_answers inp S cols row ! p =
       (if cols ! p \<in> S \<and> inp (cols ! p) \<noteq> [] then StrCell (inp (cols ! p)) else row ! p)"
  by (simp add: with_answers_def)

lemma with_answers_none: "length row = length cols \<Longrightarrow> with_answers inp {} cols row = row"
  by (rule nth_equalityI) (simp_all add: length_with_answers nth_with_answers)

lemma with_answers_empty_answer:
  "inp c = [] \<Longrightarrow> with_answers inp (insert c S) cols row = with_answers inp S cols row"
  by (rule nth_equalityI) (auto simp: length_with_answers nth_with_answers)

lemma with_answers_step:
  assumes "distinct cols" and "length row = length cols" and "index_of c cols = Some j"
    and "inp c \<noteq> []"
  shows "with_answers inp S cols (row[j := StrCell (inp c)]) = with_answers inp (insert c S) cols row"
proof (rule nth_equalityI)
  show "length (with_answers inp S cols (row[j := StrCell (inp c)]))
      = length (with_answers inp (insert c S) cols row)"
    by (simp add: length_with_answers)
next
  fix p
  assume "p < length (with_answers inp S cols (row[j := StrCell (inp c)]))"
  then have p: "p < length cols" "p < length row"
    using assms(2) by (simp_all add: length_with_answers)
  from assms(3) have j: "j < length cols" "cols ! j = c"
    using index_of_Some by fastforce+
  show "with_answers inp S cols (row[j := StrCell (inp c)]) ! p
      = with_answers inp (insert c S) cols row ! p"
  proof (cases "p = j")
    case True
    then show ?thesis using p assms(4) j by (simp add: nth_with_answers)
  next
    case False
    then have "cols ! p \<noteq> c"
      using assms(1) j p by (auto simp: nth_eq_iff_index_eq)
    then show ?thesis using p False by (simp add: nth_with_answers)
  qed
qed


lemma edit_loop_prefix:
  assumes "distinct (columns df)" and "i < length (rows df)"
    and "length (rows df ! i) = length (columns df)"
    and "set pre \<subseteq> set (columns df)"
    and "\<forall>c\<in>set pre. \<not> (inp c \<noteq> [] \<and> c \<in> set [col_work_phone, col_mobile_phone]
            \<and> \<not> validate_phone (inp c))"
  shows "edit_loop df i (map (\<lambda>c. (c, inp c)) (pre @ rest))
       = edit_loop
           (df\<lparr>rows := (rows df)[i := with_answers inp (set pre) (columns df) (rows df ! i)]\<rparr>)
           i (map (\<lambda>c. (c, inp c)) rest)"
  using assms
proof (induction pre arbitrary: df)
  case Nil
  then show ?case by (simp add: with_answers_none)
next
  case (Cons c pre)
  show ?case
  proof (cases "inp c = []")
    case True
    have "edit_loop df i (map (\<lambda>c. (c, inp c)) ((c # pre) @ rest))
        = edit_loop df i (map (\<lambda>c. (c, inp c)) (pre @ rest))"
      using True by simp
    also have "\<dots> = edit_loop
           (df\<lparr>rows := (rows df)[i := with_answers inp (set pre) (columns df) (rows df ! i)]\<rparr>)
           i (map (\<lambda>c. (c, inp c)) rest)"
      using Cons.prems by (intro Cons.IH) auto
    finally show ?thesis
      using True by (simp add: with_answers_empty_answer)
  next
    case False
    let ?df1 = "at_set df i c (inp c)"
    from Cons.prems(4) obtain j where j: "index_of c (columns df) = Some j"
      by (cases "index_of c (columns df)") (auto simp: index_of_None)
    have rows1: "rows ?df1 = (rows df)[i := (rows df ! i)[j := StrCell (inp c)]]"
      using j by (rule rows_at_set)
    have row1: "rows ?df1 ! i = (rows df ! i)[j := StrCell (inp c)]"
      using rows1 Cons.prems(2) by simp
    have "edit_loop df i (map (\<lambda>c. (c, inp c)) ((c # pre) @ rest))
        = edit_loop ?df1 i (map (\<lambda>c. (c, inp c)) (pre @ rest))"
      using False Cons.prems(5) by auto
    also have "\<dots> = edit_loop
           (?df1\<lparr>rows := (rows ?df1)[i := with_answers inp (set pre) (columns ?df1) (rows ?df1 ! i)]\<rparr>)
           i (map (\<lambda>c. (c, inp c)) rest)"
      using Cons.prems rows1 row1 by (intro Cons.IH) (auto simp: columns_at_set)
    also have "?df1\<lparr>rows := (rows ?df1)[i := with_answers inp (set pre) (columns ?df1) (rows ?df1 ! i)]\<rparr>
        = df\<lparr>rows := (rows df)[i := with_answers inp (set (c # pre)) (columns df) (rows df ! i)]\<rparr>"
      using with_answers_step [where inp = inp and c = c and S = "set pre",
          OF Cons.prems(1) Cons.prems(3) j False] Cons.prems(2)
      by (simp add: columns_at_set row1 rows1 at_set_def j)
    finally show ?thesis .
  qed
qed

text \<open>
  C6. Whenever \<open>edit_record\<close> finds the record and some non-empty answer for a phone
  column fails the validation, the edit stops at the first such column \<open>k\<close> with the
  message that \<open>k\<close> is invalid: the answers for the columns before \<open>k\<close> have been
  written to the record in memory and stay there, the answer for \<open>k\<close> and those for
  the columns after it are not written, and \<open>save\<close> is not called.
\<close>

theorem edit_record_partial_apply:
  assumes "get_column (data st) col_ID = Inr ids"
    and "i < length ids" and "ids ! i = IntCell record_id"
    and "\<forall>n<i. ids ! n \<noteq> IntCell record_id"
    and "distinct (columns (data st))"
    and "length (rows (data st) ! i) = length (columns (data st))"
    and "\<exists>c\<in>set (columns (data st)). c \<noteq> col_ID \<and> inp c \<noteq> []
            \<and> c \<in> set [col_work_phone, col_mobile_phone] \<and> \<not> validate_phone (inp c)"
  shows "\<exists>pre k post.
           filter (\<lambda>col. col \<noteq> col_ID) (columns (data st)) = pre @ k # post
         \<and> inp k \<noteq> [] \<and> k \<in> set [col_work_phone, col_mobile_phone] \<and> \<not> validate_phone (inp k)
         \<and> (\<forall>c\<in>set pre. \<not> (inp c \<noteq> [] \<and> c \<in> set [col_work_phone, col_mobile_phone]
                \<and> \<not> validate_phone (inp c)))
         \<and> edit_record st record_id inp =
             Inr (FieldInvalid k,
                  st\<lparr>data := (data st)\<lparr>rows := (rows (data st))
                        [i := with_answers inp (set pre) (columns (data st)) (rows (data st) ! i)]\<rparr>\<rparr>)"
proof -
  let ?bad = "\<lambda>c. inp c \<noteq> [] \<and> c \<in> set [col_work_phone, col_mobile_phone] \<and> \<not> validate_phone (inp c)"
  let ?cs = "filter (\<lambda>col. col \<noteq> col_ID) (columns (data st))"
  from assms(7) have "\<exists>c\<in>set ?cs. ?bad c" by auto
  then obtain pre k post where
    split: "?cs = pre @ k # post" and k: "?bad k" and pre: "\<forall>c\<in>set pre. \<not> ?bad c"
    using split_list_first_prop [of ?cs ?bad] by blast
  have len: "length ids = length (rows (data st))"
    using assms(1) by (auto simp: get_column_def split: option.splits)
  have sub: "set pre \<subseteq> set (columns (data st))"
  proof -
    have "set pre \<subseteq> set ?cs" using split by auto
    then show ?thesis by auto
  qed
  have first: "first_index (\<lambda>c. cell_eq_int c record_id) ids = Some i"
    using assms(2-4) by (simp add: first_index_Some cell_eq_int_iff)
  let ?df = "(data st)\<lparr>rows := (rows (data st))
               [i := with_answers inp (set pre) (columns (data st)) (rows (data st) ! i)]\<rparr>"
  have "edit_loop (data st) i (map (\<lambda>c. (c, inp c)) (pre @ k # post))
      = edit_loop ?df i (map (\<lambda>c. (c, inp c)) (k # post))"
    using assms(5) assms(2) len assms(6) sub pre by (intro edit_loop_prefix) auto
  also have "\<dots> = (Some k, ?df)"
    using k by simp
  finally have "edit_loop (data st) i (map (\<lambda>c. (c, inp c)) ?cs) = (Some k, ?df)"
    using split by simp
  then have "edit_record st record_id inp = Inr (FieldInvalid k, st\<lparr>data := ?df\<rparr>)"
    using assms(1) first by (simp add: edit_record_def)
  with split k pre show ?thesis by blast
qed


theorem edit_record_partial_apply_witness:
  "get_column (data store_one) col_ID = Inr [IntCell 1]
   \<and> distinct (columns (data store_one))
   \<and> validate_phone (sidorov_answers col_work_phone)
   \<and> \<not> validate_phone (sidorov_answers col_mobile_phone)
   \<and> edit_record store_one 1 sidorov_answers =
       Inr (FieldInvalid col_mobile_phone,
            store_one\<lparr>data := \<lparr>columns = schema,
                                 rows = [[IntCell 1, StrCell (ascii ''Sidorov''),
                                          StrCell (ascii ''Ivan''), StrCell (ascii ''Ivanovich''),
                                          StrCell (ascii ''Acme''), StrCell (ascii ''111''),
                                          StrCell (ascii ''7654321'')]]\<rparr>\<rparr>)"
proof -
  note cols = schema_def col_ID_def col_surname_def col_name_def col_patronymic_def
    col_organization_def col_work_phone_def col_mobile_phone_def
  note digits = validate_phone_def str_isdigit_def chr_isdigit_def in_ranges_def digit_ranges_def
  have ids: "get_column (data store_one) col_ID = Inr [IntCell 1]"
    by (simp add: get_column_def store_one_def index_of_def schema_def ivanov_row_def)
  have dist: "distinct (columns (data store_one))"
    by (simp add: store_one_def distinct_schema)
  have work: "validate_phone (sidorov_answers col_work_phone)"
    by (simp add: sidorov_answers_def cols digits ascii_def)
  have mobile: "\<not> validate_phone (sidorov_answers col_mobile_phone)"
    by (simp add: sidorov_answers_def cols digits ascii_def)
  have "\<exists>pre k post.
           filter (\<lambda>col. col \<noteq> col_ID) (columns (data store_one)) = pre @ k # post
         \<and> sidorov_answers k \<noteq> [] \<and> k \<in> set [col_work_phone, col_mobile_phone]
         \<and> \<not> validate_phone (sidorov_answers k)
         \<and> (\<forall>c\<in>set pre. \<not> (sidorov_answers c \<noteq> [] \<and> c \<in> set [col_work_phone, col_mobile_phone]
                \<and> \<not> validate_phone (sidorov_answers c)))
         \<and> edit_record store_one 1 sidorov_answers =
             Inr (FieldInvalid k,
                  store_one\<lparr>data := (data store_one)\<lparr>rows := (rows (data store_one))
                        [0 := with_answers sidorov_answers (set pre) (columns (data store_one))
                                (rows (data store_one) ! 0)]\<rparr>\<rparr>)"
  proof (rule edit_record_partial_apply [OF ids _ _ _ dist])
    show "\<exists>c\<in>set (columns (data store_one)). c \<noteq> col_ID \<and> sidorov_answers c \<noteq> []
            \<and> c \<in> set [col_work_phone, col_mobile_phone] \<and> \<not> validate_phone (sidorov_answers c)"
      using mobile
      by (intro bexI [of _ col_mobile_phone])
        (simp_all add: store_one_def sidorov_answers_def cols ascii_def)
  qed (simp_all add: store_one_def ivanov_row_def schema_def)
  moreover have "edit_record store_one 1 sidorov_answers =
       Inr (FieldInvalid col_mobile_phone,
            store_one\<lparr>data := \<lparr>columns = schema,
                                 rows = [[IntCell 1, StrCell (ascii ''Sidorov''),
                                          StrCell (ascii ''Ivan''), StrCell (ascii ''Ivanovich''),
                                          StrCell (ascii ''Acme''), StrCell (ascii ''111''),
                                          StrCell (ascii ''7654321'')]]\<rparr>\<rparr>)"
    by (simp add: edit_record_def get_column_def store_one_def sidorov_answers_def at_set_def
        index_of_def cols digits ascii_def ivanov_row_def)
  ultimately show ?thesis
    using ids dist work mobile by blast
qed

section \<open>Adding\<close>

lemma str_strip_empty_iff: "str_strip s = [] \<longleftrightarrow> list_all chr_isspace s"
proof
  assume "str_strip s = []"
  then have all: "\<forall>c\<in>set (dropWhile chr_isspace s). chr_isspace c"
    by (simp add: str_strip_def dropWhile_eq_Nil_conv)
  have "dropWhile chr_isspace s = []"
  proof (rule ccontr)
    assume ne: "dropWhile chr_isspace s \<noteq> []"
    then have "\<not> chr_isspace (hd (dropWhile chr_isspace s))"
      by (rule hd_dropWhile)
    moreover have "hd (dropWhile chr_isspace s) \<in> set (dropWhile chr_isspace s)"
      using ne by simp
    ultimately show False using all by blast
  qed
  then have "\<forall>c\<in>set s. chr_isspace c"
    by (simp only: dropWhile_eq_Nil_conv)
  then show "list_all chr_isspace s"
    by (simp only: list_all_iff)
next
  assume "list_all chr_isspace s"
  then have "\<forall>c\<in>set s. chr_isspace c"
    by (simp only: list_all_iff)
  then have "dropWhile chr_isspace s = []"
    by (simp only: dropWhile_eq_Nil_conv)
  then show "str_strip s = []"
    by (simp only: str_strip_def rev.simps dropWhile.simps)
qed

lemma add_record_bad_phone:
  assumes "\<not> (\<exists>v\<in>set (map snd entries). list_all chr_isspace v)"
    and "map_of entries col_work_phone = Some w" and "map_of entries col_mobile_phone = Some m"
    and "(\<exists>c\<in>set w. \<not> chr_isdigit c) \<or> (\<exists>c\<in>set m. \<not> chr_isdigit c)"
  shows "add_record st entries = Inr (PhonesInvalid, st)"
proof -
  have nb: "\<not> list_ex (\<lambda>v. str_strip v = []) (map snd entries)"
    using assms(1) by (simp add: list_ex_iff str_strip_empty_iff)
  have "\<not> validate_phone w \<or> \<not> validate_phone m"
    using assms(4) by (auto simp: validate_phone_def str_isdigit_def list_all_iff)
  then show ?thesis
    using assms(2,3) nb by (auto simp: add_record_def)
qed

text \<open>
  C5 (as amended). A mapping with a value that is empty or all whitespace is rejected
  with the message that all fields are required, whatever its phone numbers are: the
  emptiness check comes first. A mapping without such a value but with a character in
  either phone number that Python's \<open>isdigit\<close> does not accept is rejected as well;
  among the ASCII characters these are all characters other than \<open>0\<close> to \<open>9\<close>. In
  each case the state returned is the state before: the collection, \<open>next_id\<close> and
  the saves are unchanged.
\<close>

theorem add_record_rejects_invalid:
  "((\<exists>v\<in>set (map snd record). list_all chr_isspace v) \<longrightarrow>
       add_record st record = Inr (AllFieldsRequired, st))
   \<and> (\<not> (\<exists>v\<in>set (map snd record). list_all chr_isspace v)
        \<and> map_of record col_work_phone = Some w \<and> map_of record col_mobile_phone = Some m
        \<and> ((\<exists>c\<in>set w. \<not> chr_isdigit c) \<or> (\<exists>c\<in>set m. \<not> chr_isdigit c)) \<longrightarrow>
       add_record st record = Inr (PhonesInvalid, st))
   \<and> (\<not> (\<exists>v\<in>set (map snd record). list_all chr_isspace v)
        \<and> map_of record col_work_phone = Some w \<and> map_of record col_mobile_phone = Some m
        \<and> ((\<exists>c\<in>set w. c < 128 \<and> \<not> ascii_digit c) \<or> (\<exists>c\<in>set m. c < 128 \<and> \<not> ascii_digit c)) \<longrightarrow>
       add_record st record = Inr (PhonesInvalid, st))"
proof (intro conjI impI)
  assume "\<exists>v\<in>set (map snd record). list_all chr_isspace v"
  then have "list_ex (\<lambda>v. str_strip v = []) (map snd record)"
    by (simp add: list_ex_iff str_strip_empty_iff)
  then show "add_record st record = Inr (AllFieldsRequired, st)"
    by (simp add: add_record_def)
next
  assume "\<not> (\<exists>v\<in>set (map snd record). list_all chr_isspace v)
        \<and> map_of record col_work_phone = Some w \<and> map_of record col_mobile_phone = Some m
        \<and> ((\<exists>c\<in>set w. \<not> chr_isdigit c) \<or> (\<exists>c\<in>set m. \<not> chr_isdigit c))"
  then have "\<not> (\<exists>v\<in>set (map snd record). list_all chr_isspace v)"
    and "map_of record col_work_phone = Some w" and "map_of record col_mobile_phone = Some m"
    and "(\<exists>c\<in>set w. \<not> chr_isdigit c) \<or> (\<exists>c\<in>set m. \<not> chr_isdigit c)"
    by blast+
  then show "add_record st record = Inr (PhonesInvalid, st)"
    by (rule add_record_bad_phone)
next
  assume a: "\<not> (\<exists>v\<in>set (map snd record). list_all chr_isspace v)
        \<and> map_of record col_work_phone = Some w \<and> map_of record col_mobile_phone = Some m
        \<and> ((\<exists>c\<in>set w. c < 128 \<and> \<not> ascii_digit c) \<or> (\<exists>c\<in>set m. c < 128 \<and> \<not> ascii_digit c))"
  then have bad: "(\<exists>c\<in>set w. \<not> chr_isdigit c) \<or> (\<exists>c\<in>set m. \<not> chr_isdigit c)"
    using chr_isdigit_ascii by blast
  from a have "\<not> (\<exists>v\<in>set (map snd record). list_all chr_isspace v)"
    and "map_of record col_work_phone = Some w" and "map_of record col_mobile_phone = Some m"
    by blast+
  then show "add_record st record = Inr (PhonesInvalid, st)"
    using bad by (rule add_record_bad_phone)
qed

theorem add_record_rejects_invalid_witness:
  "add_record store_one (person '' '' ''12a'' ''7654321'') = Inr (AllFieldsRequired, store_one)
   \<and> add_record store_one (person ''Ivanov'' ''+7 495'' ''7654321'') = Inr (PhonesInvalid, store_one)
   \<and> add_record store_one (person ''Ivanov'' ''1234567'' ''765-43'') = Inr (PhonesInvalid, store_one)"
proof -
  note cols = col_ID_def col_surname_def col_name_def col_patronymic_def
    col_organization_def col_work_phone_def col_mobile_phone_def
  note chars = chr_isspace_def chr_isdigit_def in_ranges_def space_ranges_def digit_ranges_def
  have "add_record store_one (person '' '' ''12a'' ''7654321'') = Inr (AllFieldsRequired, store_one)"
    using add_record_rejects_invalid [of "person '' '' ''12a'' ''7654321''" store_one]
    by (simp add: person_def ascii_def chars)
  moreover have "add_record store_one (person ''Ivanov'' ''+7 495'' ''7654321'')
      = Inr (PhonesInvalid, store_one)"
    using add_record_rejects_invalid [of "person ''Ivanov'' ''+7 495'' ''7654321''" store_one
        "ascii ''+7 495''" "ascii ''7654321''"]
    by (simp add: person_def ascii_def chars cols)
  moreover have "add_record store_one (person ''Ivanov'' ''1234567'' ''765-43'')
      = Inr (PhonesInvalid, store_one)"
    using add_record_rejects_invalid [of "person ''Ivanov'' ''1234567'' ''765-43''" store_one
        "ascii ''1234567''" "ascii ''765-43''"]
    by (simp add: person_def ascii_def chars cols)
  ultimately show ?thesis by simp
qed

text \<open>
  C5 (as stated) fails when a digit is a decimal digit: the work phone \<open>\<^sup>2\<close>
  (SUPERSCRIPT TWO, U+00B2) holds a character that is not a decimal digit, and the
  record is added, saved and given the next ID.
\<close>

theorem add_record_superscript_counterexample:
  "add_record empty_store superscript_record
     = Inr (RecordAdded,
            \<lparr>data = \<lparr>columns = schema,
                      rows = [[IntCell 1, StrCell (ascii ''Ivanov''), StrCell (ascii ''Ivan''),
                               StrCell (ascii ''Ivanovich''), StrCell (ascii ''Acme''),
                               StrCell [178], StrCell (ascii ''7654321'')]]\<rparr>,
             next_id = 2,
             saved = [\<lparr>columns = schema,
                       rows = [[IntCell 1, StrCell (ascii ''Ivanov''), StrCell (ascii ''Ivan''),
                                StrCell (ascii ''Ivanovich''), StrCell (ascii ''Acme''),
                                StrCell [178], StrCell (ascii ''7654321'')]]\<rparr>]\<rparr>)
   \<and> map_of superscript_record col_work_phone = Some [178]
   \<and> list_ex (\<lambda>c. \<not> ascii_digit c) [178]"
  by (simp add: empty_store_def add_record_def superscript_record_def schema_def
      col_ID_def col_surname_def col_name_def col_patronymic_def col_organization_def
      col_work_phone_def col_mobile_phone_def record_with_id_def DataFrame_row_def
      concat_row_def validate_phone_def str_isdigit_def chr_isdigit_def chr_isspace_def
      in_ranges_def digit_ranges_def space_ranges_def str_strip_def ascii_def ascii_digit_def
      Let_def)

section \<open>Identifiers\<close>

lemma add_record_result:
  "add_record st record = Inr (msg, st') \<Longrightarrow>
     (msg \<noteq> RecordAdded \<and> st' = st) \<or>
     (msg = RecordAdded \<and>
      st' = \<lparr>data = concat_row (data st)
                  (DataFrame_row (columns (data st)) (record_with_id (next_id st) record)),
             next_id = next_id st + 1,
             saved = saved st @ [concat_row (data st)
                  (DataFrame_row (columns (data st)) (record_with_id (next_id st) record))]\<rparr>)"
  by (auto simp: add_record_def Let_def split: if_splits option.splits)

lemma map_of_record_with_id:
  "map_of entries col_ID = None \<Longrightarrow> map_of (record_with_id n entries) col_ID = Some (IntCell n)"
  by (induction entries) (auto simp: record_with_id_def)

lemma new_row_id:
  assumes "index_of col_ID cols = Some j" and "map_of record col_ID = None"
  shows "DataFrame_row cols (record_with_id n record) ! j = IntCell n"
proof -
  from assms(1) have "j < length cols" "cols ! j = col_ID"
    using index_of_Some by fastforce+
  then show ?thesis
    using assms(2) by (simp add: DataFrame_row_def map_of_record_with_id)
qed

lemma edit_record_result:
  "edit_record st record_id inp = Inr (msg, st') \<Longrightarrow>
     msg \<noteq> RecordAdded \<and> next_id st' = next_id st
     \<and> columns (data st') = columns (data st)
     \<and> length (rows (data st')) = length (rows (data st))"
proof -
  assume r: "edit_record st record_id inp = Inr (msg, st')"
  then obtain ids where ids: "get_column (data st) col_ID = Inr ids"
    by (cases "get_column (data st) col_ID") (auto simp: edit_record_def)
  show ?thesis
  proof (cases "first_index (\<lambda>c. cell_eq_int c record_id) ids")
    case None
    then show ?thesis using r ids by (auto simp: edit_record_def)
  next
    case (Some i)
    let ?items = "map (\<lambda>col. (col, inp col)) (filter (\<lambda>col. col \<noteq> col_ID) (columns (data st)))"
    obtain k df' where loop: "edit_loop (data st) i ?items = (k, df')"
      by (cases "edit_loop (data st) i ?items")
    from edit_loop_shape [OF loop] obtain r' where
      "columns df' = columns (data st)" "rows df' = (rows (data st))[i := r']" by blast
    then show ?thesis
      using r ids Some loop by (cases k) (auto simp: edit_record_def)
  qed
qed

lemma at_set_keeps_column:
  assumes "key \<noteq> name"
  shows "get_column (at_set df i key v) name = get_column df name"
proof (cases "index_of key (columns df)")
  case None
  then show ?thesis by (simp add: at_set_def)
next
  case (Some j)
  show ?thesis
  proof (cases "index_of name (columns df)")
    case None
    then show ?thesis by (simp add: get_column_def columns_at_set)
  next
    case Some0: (Some j0)
    have "columns df ! j = key" "columns df ! j0 = name"
      using index_of_Some [OF Some] index_of_Some [OF Some0] by simp_all
    with assms have ne: "j \<noteq> j0" by auto
    have "map (\<lambda>r. r ! j0) ((rows df)[i := (rows df ! i)[j := StrCell v]])
        = map (\<lambda>r. r ! j0) (rows df)"
    proof (rule nth_equalityI)
      show "length (map (\<lambda>r. r ! j0) ((rows df)[i := (rows df ! i)[j := StrCell v]]))
          = length (map (\<lambda>r. r ! j0) (rows df))"
        by simp
    next
      fix p
      assume "p < length (map (\<lambda>r. r ! j0) ((rows df)[i := (rows df ! i)[j := StrCell v]]))"
      then have p: "p < length (rows df)" by simp
      show "map (\<lambda>r. r ! j0) ((rows df)[i := (rows df ! i)[j := StrCell v]]) ! p
          = map (\<lambda>r. r ! j0) (rows df) ! p"
        using p ne by (cases "p = i") simp_all
    qed
    then show ?thesis
      using Some Some0 by (simp add: get_column_def columns_at_set rows_at_set)
  qed
qed

lemma edit_loop_keeps_column:
  "\<forall>item\<in>set items. fst item \<noteq> name \<Longrightarrow> edit_loop df i items = (k, df') \<Longrightarrow>
     get_column df' name = get_column df name"
proof (induction items arbitrary: df)
  case Nil
  then show ?case by simp
next
  case (Cons item items)
  obtain key v where item: "item = (key, v)" by (cases item)
  with Cons.prems(1) have key: "key \<noteq> name" by simp
  from Cons.prems(1) have rest: "\<forall>item\<in>set items. fst item \<noteq> name" by simp
  show ?case
  proof (cases "v = []")
    case True
    then have "edit_loop df i items = (k, df')" using Cons.prems(2) item by simp
    from Cons.IH [OF rest this] show ?thesis .
  next
    case False
    show ?thesis
    proof (cases "key \<in> set [col_work_phone, col_mobile_phone] \<and> \<not> validate_phone v")
      case True
      then have "df' = df" using Cons.prems(2) item False by simp
      then show ?thesis by simp
    next
      case no_abort: False
      then have "edit_loop (at_set df i key v) i items = (k, df')"
        using Cons.prems(2) item False by (auto split: if_splits)
      from Cons.IH [OF rest this] show ?thesis
        using key by (simp add: at_set_keeps_column)
    qed
  qed
qed

lemma edit_record_keeps_ids:
  assumes "edit_record st record_id inp = Inr (msg, st')"
  shows "get_column (data st') col_ID = get_column (data st) col_ID"
proof -
  from assms obtain ids where ids: "get_column (data st) col_ID = Inr ids"
    by (cases "get_column (data st) col_ID") (auto simp: edit_record_def)
  show ?thesis
  proof (cases "first_index (\<lambda>c. cell_eq_int c record_id) ids")
    case None
    then show ?thesis using assms ids by (auto simp: edit_record_def)
  next
    case (Some i)
    let ?items = "map (\<lambda>col. (col, inp col)) (filter (\<lambda>col. col \<noteq> col_ID) (columns (data st)))"
    obtain k df' where loop: "edit_loop (data st) i ?items = (k, df')"
      by (cases "edit_loop (data st) i ?items")
    have "\<forall>item\<in>set ?items. fst item \<noteq> col_ID" by auto
    from edit_loop_keeps_column [OF this loop]
    have "get_column df' col_ID = get_column (data st) col_ID" .
    then show ?thesis
      using assms ids Some loop by (cases k) (auto simp: edit_record_def)
  qed
qed


lemma get_column_concat_row:
  "get_column df name = Inr ids \<Longrightarrow> index_of name (columns df) = Some j \<Longrightarrow>
     get_column (concat_row df r) name = Inr (ids @ [r ! j])"
  by (auto simp: get_column_def concat_row_def)

lemma upt_numbering:
  "map (\<lambda>n. IntCell (int n)) [1..<Suc k] @ [IntCell (int k + 1)]
     = map (\<lambda>n. IntCell (int n)) [1..<Suc (Suc k)]"
  by simp

lemma apply_operation_counter:
  assumes "next_id st = int (len (data st)) + 1"
    and "apply_operation st op = Inr (msg, st')"
  shows "next_id st' = int (len (data st')) + 1
       \<and> len (data st') = len (data st) + (if msg = RecordAdded then 1 else 0)"
proof (cases op)
  case (AddRecord entries)
  with assms(2) have "add_record st entries = Inr (msg, st')" by simp
  from add_record_result [OF this] show ?thesis
    using assms(1) by (auto simp: len_def concat_row_def)
next
  case (EditRecord record_id inp)
  with assms(2) have "edit_record st record_id inp = Inr (msg, st')" by simp
  from edit_record_result [OF this] show ?thesis
    using assms(1) by (auto simp: len_def)
qed

lemma apply_operation_ids:
  assumes "get_column (data st) col_ID = Inr (map (\<lambda>n. IntCell (int n)) [1..<Suc (len (data st))])"
    and "next_id st = int (len (data st)) + 1"
    and "apply_operation st op = Inr (msg, st')"
    and "\<forall>entries. op = AddRecord entries \<longrightarrow> map_of entries col_ID = None"
  shows "get_column (data st') col_ID = Inr (map (\<lambda>n. IntCell (int n)) [1..<Suc (len (data st'))])"
proof (cases op)
  case (AddRecord entries)
  with assms(3) have add: "add_record st entries = Inr (msg, st')" by simp
  from AddRecord assms(4) have noid: "map_of entries col_ID = None" by simp
  show ?thesis
  proof (cases "msg = RecordAdded")
    case False
    with add_record_result [OF add] have "st' = st" by auto
    then show ?thesis using assms(1) by simp
  next
    case True
    let ?r = "DataFrame_row (columns (data st)) (record_with_id (next_id st) entries)"
    from True add_record_result [OF add] have st': "data st' = concat_row (data st) ?r"
      by auto
    from assms(1) obtain j where j: "index_of col_ID (columns (data st)) = Some j"
      by (cases "index_of col_ID (columns (data st))") (auto simp: get_column_def)
    have "?r ! j = IntCell (next_id st)"
      using j noid by (rule new_row_id)
    then have "get_column (data st') col_ID
        = Inr (map (\<lambda>n. IntCell (int n)) [1..<Suc (len (data st))] @ [IntCell (int (len (data st)) + 1)])"
      using get_column_concat_row [OF assms(1) j, of ?r] st' assms(2) by simp
    moreover have "len (data st') = Suc (len (data st))"
      using st' by (simp add: len_def concat_row_def)
    ultimately show ?thesis
      by (simp only: upt_numbering)
  qed
next
  case (EditRecord record_id inp)
  with assms(3) have ed: "edit_record st record_id inp = Inr (msg, st')" by simp
  from edit_record_result [OF ed] have "len (data st') = len (data st)"
    by (simp add: len_def)
  then show ?thesis
    using edit_record_keeps_ids [OF ed] assms(1) by simp
qed

lemma run_operations_counter:
  "next_id st = int (len (data st)) + 1 \<Longrightarrow> run_operations st ops = Inr (msgs, st') \<Longrightarrow>
     next_id st' = int (len (data st')) + 1
     \<and> len (data st') = len (data st) + length (filter (\<lambda>m. m = RecordAdded) msgs)"
proof (induction ops arbitrary: st msgs)
  case Nil
  then show ?case by simp
next
  case (Cons op ops)
  from Cons.prems(2) obtain msg st1 msgs1 where
    step: "apply_operation st op = Inr (msg, st1)" and
    rest: "run_operations st1 ops = Inr (msgs1, st')" and
    msgs: "msgs = msg # msgs1"
    by (auto split: sum.splits prod.splits)
  from apply_operation_counter [OF Cons.prems(1) step]
  have c1: "next_id st1 = int (len (data st1)) + 1"
    and l1: "len (data st1) = len (data st) + (if msg = RecordAdded then 1 else 0)" by simp_all
  from Cons.IH [OF c1 rest] show ?case
    using l1 msgs by simp
qed

lemma run_operations_ids:
  "get_column (data st) col_ID = Inr (map (\<lambda>n. IntCell (int n)) [1..<Suc (len (data st))]) \<Longrightarrow>
   next_id st = int (len (data st)) + 1 \<Longrightarrow>
   run_operations st ops = Inr (msgs, st') \<Longrightarrow>
   \<forall>entries. AddRecord entries \<in> set ops \<longrightarrow> map_of entries col_ID = None \<Longrightarrow>
     get_column (data st') col_ID = Inr (map (\<lambda>n. IntCell (int n)) [1..<Suc (len (data st'))])"
proof (induction ops arbitrary: st msgs)
  case Nil
  then show ?case by simp
next
  case (Cons op ops)
  from Cons.prems(3) obtain msg st1 msgs1 where
    step: "apply_operation st op = Inr (msg, st1)" and
    rest: "run_operations st1 ops = Inr (msgs1, st')"
    by (auto split: sum.splits prod.splits)
  have noid: "\<forall>entries. op = AddRecord entries \<longrightarrow> map_of entries col_ID = None"
    using Cons.prems(4) by simp
  have ids1: "get_column (data st1) col_ID
      = Inr (map (\<lambda>n. IntCell (int n)) [1..<Suc (len (data st1))])"
    using Cons.prems(1) Cons.prems(2) step noid by (rule apply_operation_ids)
  have c1: "next_id st1 = int (len (data st1)) + 1"
    using apply_operation_counter [OF Cons.prems(2) step] by simp
  show ?case
    using ids1 c1 rest
  proof (rule Cons.IH)
    show "\<forall>entries. AddRecord entries \<in> set ops \<longrightarrow> map_of entries col_ID = None"
      using Cons.prems(4) by simp
  qed
qed

lemma Directory_new_counter:
  "Directory_new pd_rest pd_other f = Inr st \<Longrightarrow> next_id st = int (len (data st)) + 1"
  by (auto simp: Directory_new_def split: sum.splits)

lemma Directory_new_missing: "Directory_new pd_rest pd_other NoFile = Inr empty_store"
  by (simp add: Directory_new_def CSVDataStorage_load_def read_csv_def empty_store_def len_def)


text \<open>
  C4. Without a file the store starts empty. After any run of calls from the empty store
  the collection has one record per successful add, and its IDs are \<open>1, 2, ..., n\<close> in
  the collection's order: the \<open>i\<close>-th record added has ID \<open>i\<close>. A store loaded
  with \<open>K\<close> records starts with \<open>next_id = K + 1\<close>, and the first successful add
  after loading appends a record whose ID is \<open>K + 1\<close> and increments \<open>next_id\<close> by
  one. (The mapping handed to \<open>add_record\<close> has no entry for the ID.)
\<close>

theorem identifier_assignment:
  "Directory_new pd_rest pd_other NoFile = Inr empty_store
   \<and> ((\<forall>entries. AddRecord entries \<in> set ops \<longrightarrow> map_of entries col_ID = None)
        \<and> run_operations empty_store ops = Inr (msgs, st) \<longrightarrow>
          len (data st) = length (filter (\<lambda>m. m = RecordAdded) msgs)
        \<and> get_column (data st) col_ID
            = Inr (map (\<lambda>n. IntCell (int n)) [1..<Suc (len (data st))])
        \<and> next_id st = int (len (data st)) + 1)
   \<and> (Directory_new pd_rest pd_other f = Inr st0 \<longrightarrow> next_id st0 = int (len (data st0)) + 1)
   \<and> (Directory_new pd_rest pd_other f = Inr st0
        \<and> run_operations st0 ops' = Inr (msgs', st1) \<and> RecordAdded \<notin> set msgs'
        \<and> map_of record col_ID = None \<and> index_of col_ID (columns (data st1)) = Some j
        \<and> add_record st1 record = Inr (RecordAdded, st2) \<longrightarrow>
          len (data st1) = len (data st0)
        \<and> (\<exists>r. rows (data st2) = rows (data st1) @ [r]
                \<and> r ! j = IntCell (int (len (data st0)) + 1))
        \<and> next_id st2 = next_id st1 + 1)"
proof (intro conjI impI)
  show "Directory_new pd_rest pd_other NoFile = Inr empty_store"
    by (rule Directory_new_missing)
next
  assume a: "(\<forall>entries. AddRecord entries \<in> set ops \<longrightarrow> map_of entries col_ID = None)
        \<and> run_operations empty_store ops = Inr (msgs, st)"
  have ids0: "get_column (data empty_store) col_ID
      = Inr (map (\<lambda>n. IntCell (int n)) [1..<Suc (len (data empty_store))])"
    by (simp add: get_column_def empty_store_def index_of_def schema_def len_def)
  have c0: "next_id empty_store = int (len (data empty_store)) + 1"
    by (simp add: empty_store_def len_def)
  from a have run: "run_operations empty_store ops = Inr (msgs, st)"
    and noid: "\<forall>entries. AddRecord entries \<in> set ops \<longrightarrow> map_of entries col_ID = None"
    by simp_all
  have "len (data empty_store) = 0"
    by (simp add: empty_store_def len_def)
  with run_operations_counter [OF c0 run]
  show "len (data st) = length (filter (\<lambda>m. m = RecordAdded) msgs)"
    and "next_id st = int (len (data st)) + 1" by simp_all
  show "get_column (data st) col_ID = Inr (map (\<lambda>n. IntCell (int n)) [1..<Suc (len (data st))])"
    using ids0 c0 run noid by (rule run_operations_ids)
next
  assume "Directory_new pd_rest pd_other f = Inr st0"
  then show "next_id st0 = int (len (data st0)) + 1"
    by (rule Directory_new_counter)
next
  assume a: "Directory_new pd_rest pd_other f = Inr st0
        \<and> run_operations st0 ops' = Inr (msgs', st1) \<and> RecordAdded \<notin> set msgs'
        \<and> map_of record col_ID = None \<and> index_of col_ID (columns (data st1)) = Some j
        \<and> add_record st1 record = Inr (RecordAdded, st2)"
  then have c0: "next_id st0 = int (len (data st0)) + 1"
    using Directory_new_counter by blast
  from a have run: "run_operations st0 ops' = Inr (msgs', st1)" by simp
  from a have "filter (\<lambda>m. m = RecordAdded) msgs' = []"
    by (auto simp: filter_empty_conv)
  with run_operations_counter [OF c0 run]
  have c1: "next_id st1 = int (len (data st1)) + 1" and l1: "len (data st1) = len (data st0)"
    by simp_all
  from a have add: "add_record st1 record = Inr (RecordAdded, st2)" by simp
  let ?r = "DataFrame_row (columns (data st1)) (record_with_id (next_id st1) record)"
  from add_record_result [OF add]
  have st2: "data st2 = concat_row (data st1) ?r" "next_id st2 = next_id st1 + 1"
    by auto
  have "?r ! j = IntCell (next_id st1)"
    using a by (intro new_row_id) simp_all
  then have "rows (data st2) = rows (data st1) @ [?r] \<and> ?r ! j = IntCell (int (len (data st0)) + 1)"
    using st2 c1 l1 by (simp add: concat_row_def)
  then show "len (data st1) = len (data st0)"
    and "\<exists>r. rows (data st2) = rows (data st1) @ [r] \<and> r ! j = IntCell (int (len (data st0)) + 1)"
    and "next_id st2 = next_id st1 + 1"
    using l1 st2 by blast+
qed

subsection \<open>A concrete run\<close>

lemmas col_defs = col_ID_def col_surname_def col_name_def col_patronymic_def
  col_organization_def col_work_phone_def col_mobile_phone_def

lemmas char_defs = validate_phone_def str_isdigit_def chr_isdigit_def chr_isspace_def
  in_ranges_def digit_ranges_def space_ranges_def str_strip_def ascii_def

lemma run_example:
  "run_operations empty_store example_run
     = Inr ([RecordAdded, AllFieldsRequired, RecordUpdated, RecordAdded], after_run)"
  by (simp add: example_run_def after_run_def empty_store_def add_record_def edit_record_def
      get_column_def at_set_def index_of_def ivanov_def person_def only_column_def
      ivanov_row_def schema_def col_defs record_with_id_def DataFrame_row_def concat_row_def
      char_defs Let_def)

lemma load_example:
  "Directory_new pd_error_rest pd_str_other (File (to_csv (data store_two))) = Inr loaded_two"
  by (simp add: Directory_new_def CSVDataStorage_load_def to_csv_def read_csv_def
      plain_table_def distinct_schema schema_names_nonempty length_schema store_two_def
      loaded_two_def ivanov_row_def petrov_row_def infer_cell_def int_literal_def
      ascii_digit_def int_of_digits_def ascii_def str_int_def digits_of_small upt_rec
      pd_str_other_def len_def)

lemma add_loaded_example:
  "add_record loaded_two ivanov
     = Inr (RecordAdded,
            \<lparr>data = \<lparr>columns = schema, rows = rows (data loaded_two) @ [ivanov_row 3]\<rparr>,
             next_id = 4,
             saved = [\<lparr>columns = schema, rows = rows (data loaded_two) @ [ivanov_row 3]\<rparr>]\<rparr>)"
  by (simp add: loaded_two_def add_record_def ivanov_def ivanov_row_def schema_def col_defs
      record_with_id_def DataFrame_row_def concat_row_def char_defs Let_def)

theorem identifier_assignment_witness:
  "run_operations empty_store example_run
     = Inr ([RecordAdded, AllFieldsRequired, RecordUpdated, RecordAdded], after_run)
   \<and> get_column (data after_run) col_ID = Inr [IntCell 1, IntCell 2]
   \<and> Directory_new pd_error_rest pd_str_other (File (to_csv (data store_two))) = Inr loaded_two
   \<and> len (data loaded_two) = 2 \<and> next_id loaded_two = 3
   \<and> add_record loaded_two ivanov
       = Inr (RecordAdded,
              \<lparr>data = \<lparr>columns = schema, rows = rows (data loaded_two) @ [ivanov_row 3]\<rparr>,
               next_id = 4,
               saved = [\<lparr>columns = schema, rows = rows (data loaded_two) @ [ivanov_row 3]\<rparr>]\<rparr>)"
proof -
  have noid: "\<forall>entries. AddRecord entries \<in> set example_run \<longrightarrow> map_of entries col_ID = None"
    by (auto simp: example_run_def ivanov_def person_def col_defs)
  have noid': "map_of ivanov col_ID = None"
    by (simp add: ivanov_def col_defs)
  have j: "index_of col_ID (columns (data loaded_two)) = Some 0"
    by (simp add: loaded_two_def index_of_def schema_def)
  have len_run: "len (data after_run) = 2"
    by (simp add: after_run_def len_def)
  note inst = identifier_assignment [of pd_error_rest pd_str_other example_run
      "[RecordAdded, AllFieldsRequired, RecordUpdated, RecordAdded]" after_run
      "File (to_csv (data store_two))" loaded_two "[]" "[]" loaded_two ivanov 0
      "\<lparr>data = \<lparr>columns = schema, rows = rows (data loaded_two) @ [ivanov_row 3]\<rparr>,
        next_id = 4,
        saved = [\<lparr>columns = schema, rows = rows (data loaded_two) @ [ivanov_row 3]\<rparr>]\<rparr>"]
  have "get_column (data after_run) col_ID
      = Inr (map (\<lambda>n. IntCell (int n)) [1..<Suc (len (data after_run))])"
    using inst noid run_example by blast
  then have ids: "get_column (data after_run) col_ID = Inr [IntCell 1, IntCell 2]"
    by (simp add: len_run upt_rec)
  have "next_id loaded_two = int (len (data loaded_two)) + 1"
    using inst load_example by blast
  moreover have "len (data loaded_two) = 2"
    by (simp add: loaded_two_def len_def)
  ultimately show ?thesis
    using run_example ids load_example add_loaded_example by simp
qed

section \<open>Defects\<close>

text \<open>
  C9 does not hold of the code. \<open>add_record\<close> accepts the work phone \<open>007\<close> and
  saves the record; \<open>load\<close> of the file that \<open>save\<close> wrote returns the work phone
  as the integer \<open>7\<close>, whose text is \<open>7\<close>: \<open>read_csv\<close> reads a column of digit
  strings as integers. (The mobile phone has become an integer as well, with the same
  text as before.)
\<close>

theorem save_load_leading_zero:
  "add_record empty_store bond
     = Inr (RecordAdded,
            \<lparr>data = \<lparr>columns = schema, rows = [bond_row]\<rparr>, next_id = 2,
             saved = [\<lparr>columns = schema, rows = [bond_row]\<rparr>]\<rparr>)
   \<and> CSVDataStorage_load pd_rest pd_other
         (CSVDataStorage_save \<lparr>columns = schema, rows = [bond_row]\<rparr>)
       = Inr \<lparr>columns = schema,
              rows = [[IntCell 1,
                       pd_other [ascii ''Bond''] (ascii ''Bond''),
                       pd_other [ascii ''James''] (ascii ''James''),
                       pd_other [ascii ''Herbert''] (ascii ''Herbert''),
                       pd_other [ascii ''Universal''] (ascii ''Universal''),
                       IntCell 7, IntCell 7654321]]\<rparr>
   \<and> cell_str (bond_row ! 5) = ascii ''007''
   \<and> cell_str (IntCell 7) = ascii ''7''"
proof -
  have "add_record empty_store bond
     = Inr (RecordAdded,
            \<lparr>data = \<lparr>columns = schema, rows = [bond_row]\<rparr>, next_id = 2,
             saved = [\<lparr>columns = schema, rows = [bond_row]\<rparr>]\<rparr>)"
    by (simp add: empty_store_def add_record_def bond_def bond_row_def schema_def col_defs
        record_with_id_def DataFrame_row_def concat_row_def char_defs Let_def)
  moreover have "CSVDataStorage_load pd_rest pd_other
         (CSVDataStorage_save \<lparr>columns = schema, rows = [bond_row]\<rparr>)
       = Inr \<lparr>columns = schema,
              rows = [[IntCell 1,
                       pd_other [ascii ''Bond''] (ascii ''Bond''),
                       pd_other [ascii ''James''] (ascii ''James''),
                       pd_other [ascii ''Herbert''] (ascii ''Herbert''),
                       pd_other [ascii ''Universal''] (ascii ''Universal''),
                       IntCell 7, IntCell 7654321]]\<rparr>"
    by (simp add: CSVDataStorage_load_def CSVDataStorage_save_def to_csv_def read_csv_def
        plain_table_def distinct_schema schema_names_nonempty length_schema bond_row_def
        infer_cell_def int_literal_def ascii_digit_def int_of_digits_def ascii_def
        str_int_def digits_of_small upt_rec)
  moreover have "cell_str (bond_row ! 5) = ascii ''007''"
    by (simp add: bond_row_def)
  moreover have "cell_str (IntCell 7) = ascii ''7''"
    by (simp add: str_int_def digits_of_small ascii_def)
  ultimately show ?thesis by simp
qed

text \<open>
  C1 does not hold of the code. \<open>edit_record\<close> tests an answer against the empty
  string only, so the answer \<open>" "\<close> for the surname is written to the record and the
  collection is saved with it, although the value is empty after trimming.
  \<open>add_record\<close> rejects the same value.
\<close>

theorem edit_record_commits_blank_field:
  "edit_record store_one 1 (only_column col_surname (ascii '' ''))
     = Inr (RecordUpdated,
            \<lparr>data = \<lparr>columns = schema, rows = [(ivanov_row 1)[1 := StrCell (ascii '' '')]]\<rparr>,
             next_id = 2,
             saved = saved store_one
               @ [\<lparr>columns = schema, rows = [(ivanov_row 1)[1 := StrCell (ascii '' '')]]\<rparr>]\<rparr>)
   \<and> str_strip (ascii '' '') = []
   \<and> add_record store_one (person '' '' ''1234567'' ''7654321'')
       = Inr (AllFieldsRequired, store_one)"
proof -
  have "edit_record store_one 1 (only_column col_surname (ascii '' ''))
     = Inr (RecordUpdated,
            \<lparr>data = \<lparr>columns = schema, rows = [(ivanov_row 1)[1 := StrCell (ascii '' '')]]\<rparr>,
             next_id = 2,
             saved = saved store_one
               @ [\<lparr>columns = schema, rows = [(ivanov_row 1)[1 := StrCell (ascii '' '')]]\<rparr>]\<rparr>)"
    by (simp add: edit_record_def get_column_def store_one_def only_column_def schema_def
        at_set_def index_of_def col_defs char_defs ivanov_row_def)
  moreover have "str_strip (ascii '' '') = []"
    by (simp add: char_defs)
  moreover have "add_record store_one (person '' '' ''1234567'' ''7654321'')
       = Inr (AllFieldsRequired, store_one)"
    by (simp add: add_record_def person_def char_defs)
  ultimately show ?thesis by simp
qed

end
